theory Spec2Isabelle
  imports Main
begin

section \<open>require-esm-in-cjs: the synchronous bridge \<open>main(uri)\<close> of \<open>src/index.js\<close>\<close>

text \<open>
  The whole program is one function:
  \<^verbatim>\<open>
  function main(uri){
      let mod;
      import(uri)
          .then(res => mod = res.default)
          .catch(err => console.error(mod = err))
      while (!mod) deasync.sleep(100);
      return mod
      }
  \<close>
  The embedding below keeps its parts apart: the JavaScript values the slot \<open>mod\<close> can
  hold and their truthiness (what \<open>!mod\<close> tests), the two completion handlers and the way
  they are chained, one call of \<open>deasync.sleep\<close> as a step of the event loop, the polling
  loop as a partial function (it may run forever), and \<open>main\<close> itself.
\<close>

subsection \<open>JavaScript values\<close>

text \<open>
  The code inspects a value through \<open>!mod\<close>, and the promise machinery inspects the value
  the first handler returns: a thenable is adopted by the promise that \<open>.then\<close> returned. So a
  value is modelled by its kind and, for primitives, its content. Numbers are the integers
  and \<open>NaN\<close> (the negative zero, falsy like \<open>0\<close>, is not told apart from it); an object, a
  function or a symbol is a reference (its address). A thenable (a promise, or any object
  with a \<open>then\<close> method) is a reference together with what adopting it leads to:
  \<open>Rejects k err\<close>, it rejects with \<open>err\<close>, and a handler waiting for that runs \<open>k\<close> polling
  intervals after the interval of the adoption (\<open>k = 0\<close>: in the same interval, as for a
  promise already rejected or a \<open>then\<close> method that rejects at once); \<open>Quiet\<close>, it fulfils or
  stays pending, and no rejection handler ever runs.
\<close>

datatype jsval =
    Undefined
  | Null
  | Bool bool
  | Num int
  | NaN
  | BigInt int
  | Str string
  | Symbol nat
  | Obj nat
  | Thenable nat adoption
and adoption =
    Rejects nat jsval
  | Quiet

text \<open>\<open>ToBoolean\<close>: the falsy values are \<open>undefined\<close>, \<open>null\<close>, \<open>false\<close>, \<open>0\<close>, \<open>NaN\<close>,
  \<open>0n\<close> and the empty string; every symbol and every object is truthy.\<close>

fun truthy :: "jsval \<Rightarrow> bool" where
  "truthy Undefined = False"
| "truthy Null = False"
| "truthy (Bool b) = b"
| "truthy (Num n) = (n \<noteq> 0)"
| "truthy NaN = False"
| "truthy (BigInt n) = (n \<noteq> 0)"
| "truthy (Str s) = (s \<noteq> [])"
| "truthy (Symbol a) = True"
| "truthy (Obj a) = True"
| "truthy (Thenable a f) = True"

text \<open>A module namespace object: the exported names with their values. Reading a member
  that is not exported gives \<open>undefined\<close>, as \<open>res.default\<close> does.\<close>

type_synonym namespace = "(string \<times> jsval) list"

definition get_member :: "namespace \<Rightarrow> string \<Rightarrow> jsval" where
  "get_member res name = (case map_of res name of None \<Rightarrow> Undefined | Some v \<Rightarrow> v)"

subsection \<open>The asynchronous load and the state of one invocation\<close>

text \<open>
  How the promise returned by \<open>import(uri)\<close> ends: fulfilled with a namespace or rejected
  with an error value. \<open>Settles n out\<close> says that the handlers attached to it run during
  the \<open>(n+1)\<close>-th call of \<open>deasync.sleep\<close> after the call of \<open>import\<close> (handlers of a promise
  never run before the synchronous code that attached them reaches a yield, so none runs
  before the first test of the loop); \<open>Never\<close> is a load that does not settle.
\<close>

datatype outcome = Fulfil namespace | Reject jsval

datatype load = Settles nat outcome | Never

type_synonym loader = "string \<Rightarrow> load"

text \<open>The promise of \<open>import(uri)\<close> as the running invocation sees it: still waiting, never
  to settle, or settled with its handler run.\<close>

datatype promise = Waiting nat outcome | Forever | Settled

fun start_import :: "load \<Rightarrow> promise" where
  "start_import (Settles n out) = Waiting n out"
| "start_import Never = Forever"

text \<open>
  A rejection on its way to a catch handler: \<open>(k, err)\<close> reaches it during the \<open>(k+1)\<close>-th
  next call of \<open>deasync.sleep\<close>.
\<close>

type_synonym rejection = "nat \<times> jsval"

text \<open>
  The state of one invocation: the local \<open>mod\<close>; the promise of its \<open>import\<close>; the promise
  that \<open>.then\<close> returned, of which only a rejection still on its way matters; the process's
  \<open>console.error\<close> stream; and the rejections still on their way to the catch handlers of
  earlier invocations, which had returned before those ran. Two counters record the
  history: the number of calls of \<open>deasync.sleep\<close> made so far and the number of assignments
  to \<open>mod\<close>.
\<close>

record frame =
  mod_slot :: jsval
  import_promise :: promise
  then_promise :: "rejection option"
  console :: "jsval list"
  late :: "rejection list"
  sleeps :: nat
  writes :: nat

text \<open>\<open>res => mod = res.default\<close>. Reading a member of the namespace of an evaluated module
  does not throw. The arrow function returns the value it assigned, so the promise that
  \<open>.then\<close> returned is resolved with \<open>res.default\<close>: see \<open>adopt\<close>.\<close>

definition on_then :: "namespace \<Rightarrow> frame \<Rightarrow> frame" where
  "on_then res s = s\<lparr>mod_slot := get_member res ''default'', writes := Suc (writes s)\<rparr>"

text \<open>\<open>err => console.error(mod = err)\<close>: the assignment, then the value is logged.\<close>

definition on_catch :: "jsval \<Rightarrow> frame \<Rightarrow> frame" where
  "on_catch err s =
     s\<lparr>mod_slot := err, writes := Suc (writes s), console := console s @ [err]\<rparr>"

text \<open>
  \<open>.catch\<close> is called on the promise that \<open>.then\<close> returned, not on that of \<open>import\<close>. That
  promise is resolved with the value \<open>v\<close> the first handler returned. If \<open>v\<close> is a thenable
  that rejects, the promise rejects with it and the catch handler runs as well, at once or
  some intervals later; for any other value it is fulfilled and the catch handler is
  passed over.
\<close>

fun adopt :: "jsval \<Rightarrow> frame \<Rightarrow> frame" where
  "adopt (Thenable a (Rejects 0 err)) s = on_catch err s"
| "adopt (Thenable a (Rejects (Suc k) err)) s = s\<lparr>then_promise := Some (k, err)\<rparr>"
| "adopt v s = s"

text \<open>The handlers run when the promise of \<open>import\<close> settles. A rejection passes through
  \<open>.then\<close> to the catch handler.\<close>

fun settle :: "outcome \<Rightarrow> frame \<Rightarrow> frame" where
  "settle (Fulfil res) s = adopt (get_member res ''default'') (on_then res s)"
| "settle (Reject err) s = on_catch err s"

text \<open>The value in \<open>mod\<close> when the polling interval in which the load settled is over.\<close>

fun after_adoption :: "jsval \<Rightarrow> jsval" where
  "after_adoption (Thenable a (Rejects 0 err)) = err"
| "after_adoption v = v"

fun stored :: "outcome \<Rightarrow> jsval" where
  "stored (Fulfil res) = after_adoption (get_member res ''default'')"
| "stored (Reject err) = err"

text \<open>
  The catch handlers of earlier invocations whose rejection arrives in this interval: each
  assigns to the \<open>mod\<close> of its own invocation, which has returned, and logs the error.
\<close>

definition run_late :: "frame \<Rightarrow> frame" where
  "run_late s =
     s\<lparr>console := console s @ map snd (filter (\<lambda>j. fst j = 0) (late s)),
       late := map (\<lambda>j. (fst j - 1, snd j)) (filter (\<lambda>j. fst j \<noteq> 0) (late s))\<rparr>"

text \<open>
  Modelled from the spec: \<open>deasync\<close> is a third-party package, its \<open>sleep\<close> is not part of
  this repository. One call of \<open>deasync.sleep(100)\<close> suspends the caller while the event loop
  runs for the interval; the handlers whose promise settles in it run, each once, as tasks
  of that interval.
\<close>

definition deasync_sleep :: "frame \<Rightarrow> frame" where
  "deasync_sleep s =
     (let s' = run_late (s\<lparr>sleeps := Suc (sleeps s)\<rparr>) in
      case import_promise s of
        Waiting 0 out \<Rightarrow> settle out (s'\<lparr>import_promise := Settled\<rparr>)
      | Waiting (Suc k) out \<Rightarrow> s'\<lparr>import_promise := Waiting k out\<rparr>
      | Forever \<Rightarrow> s'
      | Settled \<Rightarrow>
          (case then_promise s of
             None \<Rightarrow> s'
           | Some (0, err) \<Rightarrow> on_catch err (s'\<lparr>then_promise := None\<rparr>)
           | Some (Suc k, err) \<Rightarrow> s'\<lparr>then_promise := Some (k, err)\<rparr>))"

text \<open>\<open>while (!mod) deasync.sleep(100);\<close> The loop may run forever: \<open>None\<close> is "does not
  leave the loop".\<close>

partial_function (option) poll :: "frame \<Rightarrow> frame option" where
  "poll s = (if \<not> truthy (mod_slot s) then poll (deasync_sleep s) else Some s)"

declare poll.simps [code]

text \<open>\<open>let mod; import(uri).then(...).catch(...)\<close>: the state in which the loop is entered,
  in a process that has written \<open>con\<close> to \<open>console.error\<close> and where the rejections \<open>js\<close> of
  earlier invocations are still on their way.\<close>

definition begin_in :: "loader \<Rightarrow> string \<Rightarrow> jsval list \<Rightarrow> rejection list \<Rightarrow> frame" where
  "begin_in imp uri con js =
     \<lparr>mod_slot = Undefined, import_promise = start_import (imp uri), then_promise = None,
      console = con, late = js, sleeps = 0, writes = 0\<rparr>"

text \<open>The same in a process where nothing is left over from earlier invocations.\<close>

definition begin_main :: "loader \<Rightarrow> string \<Rightarrow> jsval list \<Rightarrow> frame" where
  "begin_main imp uri con = begin_in imp uri con []"

text \<open>The invocation up to the exit of the loop.\<close>

definition main_exec :: "loader \<Rightarrow> string \<Rightarrow> jsval list \<Rightarrow> frame option" where
  "main_exec imp uri con = poll (begin_main imp uri con)"

text \<open>How a call ends when it ends: with a returned value or a thrown one.\<close>

datatype completion = Return jsval | Throw jsval

text \<open>\<open>main(uri)\<close>: what the caller gets, and the \<open>console.error\<close> stream after the call.
  The only exit of the function is \<open>return mod\<close>.\<close>

definition main :: "loader \<Rightarrow> string \<Rightarrow> jsval list \<Rightarrow> (completion \<times> jsval list) option" where
  "main imp uri con =
     (case main_exec imp uri con of
        None \<Rightarrow> None
      | Some s \<Rightarrow> Some (Return (mod_slot s), console s))"

text \<open>What an invocation leaves behind when it returns: the rejections it found on their
  way, and that of its own \<open>.then\<close> promise if the catch handler has not run yet.\<close>

definition leftover :: "frame \<Rightarrow> rejection list" where
  "leftover s = late s @ (case then_promise s of None \<Rightarrow> [] | Some j \<Rightarrow> [j])"

text \<open>\<open>main(uri)\<close> in a process with leftovers: besides the value, the console and the
  rejections still on their way are handed on.\<close>

definition main_in ::
  "loader \<Rightarrow> string \<Rightarrow> jsval list \<times> rejection list \<Rightarrow>
   (completion \<times> jsval list \<times> rejection list) option" where
  "main_in imp uri w =
     (case poll (begin_in imp uri (fst w) (snd w)) of
        None \<Rightarrow> None
      | Some s \<Rightarrow> Some (Return (mod_slot s), console s, leftover s))"

text \<open>Two calls one after the other, as in \<open>const a = req(u1); const b = req(u2)\<close>: the
  second starts when the first has returned, in the process the first left behind.\<close>

definition main_twice ::
  "loader \<Rightarrow> string \<Rightarrow> string \<Rightarrow> jsval list \<Rightarrow> (completion \<times> completion \<times> jsval list) option" where
  "main_twice imp u1 u2 con =
     (case main_in imp u1 (con, []) of
        None \<Rightarrow> None
      | Some (r1, w1) \<Rightarrow>
          (case main_in imp u2 w1 of
             None \<Rightarrow> None
           | Some (r2, con2, js2) \<Rightarrow> Some (r1, r2, con2)))"

text \<open>The state after \<open>n\<close> calls of \<open>deasync.sleep\<close>.\<close>

definition after_sleeps :: "nat \<Rightarrow> frame \<Rightarrow> frame" where
  "after_sleeps n s = (deasync_sleep ^^ n) s"

text \<open>The part of the state that belongs to the invocation itself: everything but the
  console and the leftovers of earlier invocations.\<close>

definition own :: "frame \<Rightarrow> jsval \<times> promise \<times> rejection option \<times> nat \<times> nat" where
  "own s = (mod_slot s, import_promise s, then_promise s, sleeps s, writes s)"

text \<open>The modules of the scenarios: \<open>fastMod\<close> resolves to \<open>{default: 42}\<close> and \<open>badMod\<close>
  rejects with \<open>"not found"\<close>, both within the first polling interval; further modules
  take longer, throw an error object, export that same object as their default, resolve
  to a zero or empty default, have named exports only, fail with no error value, never
  settle, or export as their default a thenable that rejects, at once or two intervals
  later.\<close>

definition scenario_modules :: "(string \<times> load) list" where
  "scenario_modules =
     [(''fastMod'', Settles 0 (Fulfil [(''default'', Num 42)])),
      (''slowMod'', Settles 3 (Fulfil [(''default'', Obj 1), (''helper'', Obj 2)])),
      (''badMod'', Settles 0 (Reject (Str ''not found''))),
      (''brokenMod'', Settles 2 (Reject (Obj 7))),
      (''errorAsDefault'', Settles 2 (Fulfil [(''default'', Obj 7)])),
      (''zeroMod'', Settles 0 (Fulfil [(''default'', Num 0)])),
      (''emptyMod'', Settles 1 (Fulfil [(''default'', Str [])])),
      (''namedOnly'', Settles 0 (Fulfil [(''helper'', Obj 2)])),
      (''voidFail'', Settles 0 (Reject Undefined)),
      (''hangMod'', Never),
      (''rejectingDefault'', Settles 0 (Fulfil [(''default'', Thenable 9 (Rejects 0 (Obj 8)))])),
      (''laterRejected'', Settles 1 (Fulfil [(''default'', Thenable 5 (Rejects 2 (Obj 6)))]))]"

definition scenario_loader :: loader where
  "scenario_loader uri =
     (case map_of scenario_modules uri of
        None \<Rightarrow> Settles 0 (Reject (Str ''not found''))
      | Some l \<Rightarrow> l)"

subsection \<open>The event loop, step by step\<close>

lemma after_sleeps_0: "after_sleeps 0 s = s"
  by (simp add: after_sleeps_def)

lemma after_sleeps_Suc: "after_sleeps (Suc n) s = after_sleeps n (deasync_sleep s)"
  by (simp add: after_sleeps_def funpow_swap1)

lemma after_sleeps_Suc': "after_sleeps (Suc n) s = deasync_sleep (after_sleeps n s)"
  by (simp add: after_sleeps_def)

lemma after_sleeps_add: "after_sleeps (m + n) s = after_sleeps m (after_sleeps n s)"
  by (simp add: after_sleeps_def funpow_add)

lemma run_late_none: "late s = [] \<Longrightarrow> run_late s = s"
  by (simp add: run_late_def)

lemma sleep_waiting:
  "import_promise s = Waiting d out \<Longrightarrow> late s = [] \<Longrightarrow> k \<le> d \<Longrightarrow>
   after_sleeps k s = s\<lparr>sleeps := sleeps s + k, import_promise := Waiting (d - k) out\<rparr>"
proof (induction k arbitrary: s d)
  case 0
  then show ?case by (simp add: after_sleeps_0)
next
  case (Suc k)
  then obtain d' where d: "d = Suc d'" by (cases d) auto
  have step: "deasync_sleep s = s\<lparr>sleeps := Suc (sleeps s), import_promise := Waiting d' out\<rparr>"
    using Suc.prems(1,2) d by (simp add: deasync_sleep_def run_late_none)
  have "after_sleeps (Suc k) s = after_sleeps k (deasync_sleep s)"
    by (rule after_sleeps_Suc)
  also have "\<dots> = (deasync_sleep s)\<lparr>sleeps := sleeps (deasync_sleep s) + k,
                     import_promise := Waiting (d' - k) out\<rparr>"
    using Suc.prems(2,3) d by (intro Suc.IH) (simp_all add: step)
  finally show ?case by (simp add: step d)
qed

lemma sleep_settled:
  "import_promise s = Settled \<Longrightarrow> then_promise s = None \<Longrightarrow> late s = [] \<Longrightarrow>
   after_sleeps k s = s\<lparr>sleeps := sleeps s + k\<rparr>"
  by (induction k arbitrary: s)
     (simp_all add: after_sleeps_0 after_sleeps_Suc deasync_sleep_def run_late_none)

lemma sleep_forever:
  "import_promise s = Forever \<Longrightarrow> late s = [] \<Longrightarrow>
   after_sleeps k s = s\<lparr>sleeps := sleeps s + k\<rparr>"
  by (induction k arbitrary: s)
     (simp_all add: after_sleeps_0 after_sleeps_Suc deasync_sleep_def run_late_none)

subsection \<open>The polling loop\<close>

lemma poll_truthy: "truthy (mod_slot s) \<Longrightarrow> poll s = Some s"
  by (subst poll.simps) simp

lemma poll_falsy: "\<not> truthy (mod_slot s) \<Longrightarrow> poll s = poll (deasync_sleep s)"
  by (subst poll.simps) simp

lemma poll_skip:
  "(\<forall>k<n. \<not> truthy (mod_slot (after_sleeps k s))) \<Longrightarrow> poll s = poll (after_sleeps n s)"
proof (induction n arbitrary: s)
  case 0
  show ?case by (simp add: after_sleeps_0)
next
  case (Suc n)
  have f: "\<not> truthy (mod_slot s)" using Suc.prems [rule_format, of 0] by (simp add: after_sleeps_0)
  have "\<forall>k<n. \<not> truthy (mod_slot (after_sleeps k (deasync_sleep s)))"
    using Suc.prems by (auto simp: after_sleeps_Suc [symmetric])
  then have "poll (deasync_sleep s) = poll (after_sleeps n (deasync_sleep s))" by (rule Suc.IH)
  then show ?case using f by (simp add: poll_falsy after_sleeps_Suc)
qed

lemma poll_Some_D:
  assumes "poll s = Some t"
  shows "\<exists>n. t = after_sleeps n s \<and> truthy (mod_slot t) \<and>
             (\<forall>k<n. \<not> truthy (mod_slot (after_sleeps k s)))"
proof (rule poll.raw_induct
    [where P = "\<lambda>s t. \<exists>n. t = after_sleeps n s \<and> truthy (mod_slot t) \<and>
                   (\<forall>k<n. \<not> truthy (mod_slot (after_sleeps k s)))"], goal_cases)
  case 2
  show ?case by (rule assms)
next
  case (1 f a b)
  show ?case
  proof (cases "truthy (mod_slot a)")
    case True
    then have "b = a" using 1(2) by simp
    then show ?thesis using True by (intro exI [of _ 0]) (simp add: after_sleeps_0)
  next
    case False
    then have "f (deasync_sleep a) = Some b" using 1(2) by simp
    from 1(1) [OF this] obtain n where n: "b = after_sleeps n (deasync_sleep a)" "truthy (mod_slot b)"
      "\<forall>k<n. \<not> truthy (mod_slot (after_sleeps k (deasync_sleep a)))" by blast
    have "\<forall>k<Suc n. \<not> truthy (mod_slot (after_sleeps k a))"
    proof (intro allI impI)
      fix k assume "k < Suc n"
      then show "\<not> truthy (mod_slot (after_sleeps k a))"
        using False n(3) by (cases k) (auto simp: after_sleeps_0 after_sleeps_Suc)
    qed
    then show ?thesis using n(1,2) by (intro exI [of _ "Suc n"]) (simp add: after_sleeps_Suc)
  qed
qed

lemma poll_None:
  "(\<forall>n. \<not> truthy (mod_slot (after_sleeps n s))) \<Longrightarrow> poll s = None"
proof (rule ccontr)
  assume stuck: "\<forall>n. \<not> truthy (mod_slot (after_sleeps n s))" and "poll s \<noteq> None"
  then obtain t where "poll s = Some t" by auto
  from poll_Some_D [OF this] stuck show False by auto
qed

subsection \<open>The handlers\<close>

lemma mod_slot_adopt: "mod_slot (adopt v s) = (if after_adoption v = v then mod_slot s else after_adoption v)"
  by (induction v s rule: adopt.induct) (simp_all add: on_catch_def)

lemma after_adoption_on_then:
  "after_adoption v \<noteq> v \<or> mod_slot s = v \<Longrightarrow>
   mod_slot (adopt v s) = after_adoption v"
  by (auto simp: mod_slot_adopt)

lemma mod_slot_settle: "mod_slot (settle out s) = stored out"
  by (cases out) (simp_all add: on_then_def on_catch_def after_adoption_on_then)

lemma import_promise_adopt: "import_promise (adopt v s) = import_promise s"
  by (induction v s rule: adopt.induct) (simp_all add: on_catch_def)

lemma import_promise_settle: "import_promise (settle out s) = import_promise s"
  by (cases out) (simp_all add: on_then_def on_catch_def import_promise_adopt)

lemma sleeps_adopt: "sleeps (adopt v s) = sleeps s"
  by (induction v s rule: adopt.induct) (simp_all add: on_catch_def)

lemma sleeps_settle: "sleeps (settle out s) = sleeps s"
  by (cases out) (simp_all add: on_then_def on_catch_def sleeps_adopt)

lemma late_adopt: "late (adopt v s) = late s"
  by (induction v s rule: adopt.induct) (simp_all add: on_catch_def)

lemma late_settle: "late (settle out s) = late s"
  by (cases out) (simp_all add: on_then_def on_catch_def late_adopt)

lemma writes_adopt: "writes (adopt v s) = writes s \<or> writes (adopt v s) = Suc (writes s)"
  by (induction v s rule: adopt.induct) (simp_all add: on_catch_def)

lemma writes_settle:
  "writes (settle out s) = Suc (writes s) \<or> writes (settle out s) = Suc (Suc (writes s))"
proof (cases out)
  case (Fulfil res)
  then show ?thesis
    using writes_adopt [of "get_member res ''default''" "on_then res s"]
    by (simp add: on_then_def)
next
  case (Reject err)
  then show ?thesis by (simp add: on_catch_def)
qed

lemma adopt_sleeps_update: "(adopt v s)\<lparr>sleeps := n\<rparr> = adopt v (s\<lparr>sleeps := n\<rparr>)"
  by (induction v s rule: adopt.induct) (simp_all add: on_catch_def)

lemma settle_sleeps_update: "(settle out s)\<lparr>sleeps := n\<rparr> = settle out (s\<lparr>sleeps := n\<rparr>)"
proof (cases out)
  case (Fulfil res)
  have "(on_then res s)\<lparr>sleeps := n\<rparr> = on_then res (s\<lparr>sleeps := n\<rparr>)"
    by (simp add: on_then_def)
  then show ?thesis by (simp add: Fulfil adopt_sleeps_update)
next
  case (Reject err)
  then show ?thesis by (simp add: on_catch_def)
qed

lemma then_promise_adopt_falsy:
  "\<not> truthy (after_adoption v) \<Longrightarrow> then_promise (adopt v s) = then_promise s"
  by (induction v s rule: adopt.induct) (simp_all add: on_catch_def)

lemma then_promise_settle_falsy:
  "\<not> truthy (stored out) \<Longrightarrow> then_promise (settle out s) = then_promise s"
  by (cases out) (simp_all add: on_then_def on_catch_def then_promise_adopt_falsy)

lemma after_adoption_falsy: "\<not> truthy v \<Longrightarrow> after_adoption v = v"
  by (cases v rule: after_adoption.cases) auto

lemma after_adoption_later: "\<forall>a err. v \<noteq> Thenable a (Rejects 0 err) \<Longrightarrow> after_adoption v = v"
  by (cases v rule: after_adoption.cases) auto

lemma console_adopt_later:
  "\<forall>a err. v \<noteq> Thenable a (Rejects 0 err) \<Longrightarrow> console (adopt v s) = console s"
  by (cases "(v, s)" rule: adopt.cases) auto

subsection \<open>The states an invocation passes through\<close>

lemma trace_never:
  assumes "imp uri = Never"
  shows "after_sleeps n (begin_main imp uri con) =
         \<lparr>mod_slot = Undefined, import_promise = Forever, then_promise = None, console = con,
          late = [], sleeps = n, writes = 0\<rparr>"
proof -
  have "import_promise (begin_main imp uri con) = Forever" "late (begin_main imp uri con) = []"
    using assms by (simp_all add: begin_main_def begin_in_def)
  from sleep_forever [OF this, of n] show ?thesis
    using assms by (simp add: begin_main_def begin_in_def)
qed

lemma trace_waiting:
  assumes "imp uri = Settles d out" and "n \<le> d"
  shows "after_sleeps n (begin_main imp uri con) =
         \<lparr>mod_slot = Undefined, import_promise = Waiting (d - n) out, then_promise = None,
          console = con, late = [], sleeps = n, writes = 0\<rparr>"
proof -
  have "import_promise (begin_main imp uri con) = Waiting d out"
    "late (begin_main imp uri con) = []"
    using assms(1) by (simp_all add: begin_main_def begin_in_def)
  from sleep_waiting [OF this assms(2)] show ?thesis
    using assms(1) by (simp add: begin_main_def begin_in_def)
qed

lemma trace_settling:
  assumes "imp uri = Settles d out"
  shows "after_sleeps (Suc d) (begin_main imp uri con) =
         settle out \<lparr>mod_slot = Undefined, import_promise = Settled, then_promise = None,
                     console = con, late = [], sleeps = Suc d, writes = 0\<rparr>"
proof -
  have "after_sleeps d (begin_main imp uri con) =
        \<lparr>mod_slot = Undefined, import_promise = Waiting 0 out, then_promise = None,
         console = con, late = [], sleeps = d, writes = 0\<rparr>"
    using trace_waiting [where imp = imp and uri = uri, OF assms, of d con] by simp
  then show ?thesis
    by (simp add: after_sleeps_Suc' deasync_sleep_def run_late_none)
qed

lemma trace_settled_quiet:
  assumes "imp uri = Settles d out" and "\<And>s. then_promise (settle out s) = then_promise s"
  shows "after_sleeps (Suc d + k) (begin_main imp uri con) =
         settle out \<lparr>mod_slot = Undefined, import_promise = Settled, then_promise = None,
                     console = con, late = [], sleeps = Suc d + k, writes = 0\<rparr>"
proof -
  let ?s0 = "begin_main imp uri con"
  let ?t = "settle out \<lparr>mod_slot = Undefined, import_promise = Settled, then_promise = None,
                     console = con, late = [], sleeps = Suc d, writes = 0\<rparr>"
  have at: "after_sleeps (Suc d) ?s0 = ?t"
    by (rule trace_settling [where imp = imp and uri = uri, OF assms(1)])
  have "after_sleeps (Suc d + k) ?s0 = after_sleeps k (after_sleeps (Suc d) ?s0)"
    by (simp only: after_sleeps_add add.commute [of "Suc d" k])
  also have "\<dots> = ?t\<lparr>sleeps := sleeps ?t + k\<rparr>"
    unfolding at
    by (rule sleep_settled) (simp_all add: import_promise_settle late_settle assms(2))
  finally show ?thesis
    by (simp add: settle_sleeps_update sleeps_settle)
qed

lemma trace_settled:
  assumes "imp uri = Settles d out" and "\<not> truthy (stored out)"
  shows "after_sleeps (Suc d + k) (begin_main imp uri con) =
         settle out \<lparr>mod_slot = Undefined, import_promise = Settled, then_promise = None,
                     console = con, late = [], sleeps = Suc d + k, writes = 0\<rparr>"
  by (rule trace_settled_quiet [where imp = imp and uri = uri, OF assms(1)])
     (rule then_promise_settle_falsy [OF assms(2)])

lemma falsy_before_settlement:
  assumes "imp uri = Settles d out" and "n \<le> d"
  shows "\<not> truthy (mod_slot (after_sleeps n (begin_main imp uri con)))"
  by (simp add: trace_waiting [where imp = imp and uri = uri, OF assms])

subsection \<open>What an invocation does, by the way its load ends\<close>

lemma main_exec_settles:
  assumes "imp uri = Settles d out" and "truthy (stored out)"
  shows "main_exec imp uri con =
         Some (settle out \<lparr>mod_slot = Undefined, import_promise = Settled, then_promise = None,
                           console = con, late = [], sleeps = Suc d, writes = 0\<rparr>)"
proof -
  let ?s0 = "begin_main imp uri con"
  have "\<forall>k<Suc d. \<not> truthy (mod_slot (after_sleeps k ?s0))"
    using falsy_before_settlement [where imp = imp and uri = uri, OF assms(1)] by simp
  then have "poll ?s0 = poll (after_sleeps (Suc d) ?s0)"
    by (rule poll_skip)
  also have "\<dots> = Some (after_sleeps (Suc d) ?s0)"
    using trace_settling [where imp = imp and uri = uri, OF assms(1), of con] assms(2)
    by (intro poll_truthy) (simp add: mod_slot_settle)
  finally show ?thesis
    using trace_settling [where imp = imp and uri = uri, OF assms(1), of con]
    by (simp add: main_exec_def)
qed

lemma falsy_forever:
  assumes "imp uri = Settles d out" and "\<not> truthy (stored out)"
  shows "\<not> truthy (mod_slot (after_sleeps n (begin_main imp uri con)))"
proof (cases "n \<le> d")
  case True
  then show ?thesis by (rule falsy_before_settlement [where imp = imp and uri = uri, OF assms(1)])
next
  case False
  then have "n = Suc d + (n - Suc d)" by simp
  then show ?thesis
    using trace_settled [where imp = imp and uri = uri, OF assms, of "n - Suc d" con] assms(2)
    by (simp add: mod_slot_settle)
qed

lemma main_exec_stuck:
  assumes "imp uri = Settles d out" and "\<not> truthy (stored out)"
  shows "main_exec imp uri con = None"
  unfolding main_exec_def
  by (rule poll_None) (simp add: falsy_forever [where imp = imp and uri = uri, OF assms])

lemma main_exec_never:
  assumes "imp uri = Never"
  shows "main_exec imp uri con = None"
  unfolding main_exec_def
  by (rule poll_None) (simp add: trace_never [where imp = imp and uri = uri, OF assms])

lemma main_exec_Some_D:
  assumes "main_exec imp uri con = Some s"
  shows "\<exists>d out. imp uri = Settles d out \<and> truthy (stored out) \<and>
           s = settle out \<lparr>mod_slot = Undefined, import_promise = Settled, then_promise = None,
                            console = con, late = [], sleeps = Suc d, writes = 0\<rparr>"
proof (cases "imp uri")
  case Never
  then show ?thesis
    using assms main_exec_never [where imp = imp and uri = uri and con = con] by simp
next
  case (Settles d out)
  show ?thesis
  proof (cases "truthy (stored out)")
    case True
    then show ?thesis
      using assms main_exec_settles [where imp = imp and uri = uri, OF Settles True, of con] Settles
      by simp
  next
    case False
    then show ?thesis
      using assms main_exec_stuck [where imp = imp and uri = uri, OF Settles False, of con]
      by simp
  qed
qed

lemma main_settles:
  assumes "imp uri = Settles d out" and "truthy (stored out)"
  shows "main imp uri con =
         Some (Return (stored out), console (settle out \<lparr>mod_slot = Undefined,
           import_promise = Settled, then_promise = None, console = con, late = [],
           sleeps = Suc d, writes = 0\<rparr>))"
  by (simp add: main_def main_exec_settles [where imp = imp and uri = uri, OF assms] mod_slot_settle)

lemma main_fulfilled:
  assumes "imp uri = Settles d (Fulfil res)" and "truthy (get_member res ''default'')"
    and "\<forall>a err. get_member res ''default'' \<noteq> Thenable a (Rejects 0 err)"
  shows "main imp uri con = Some (Return (get_member res ''default''), con)"
  using main_settles [where imp = imp and uri = uri, OF assms(1), of con] assms(2)
  by (simp add: on_then_def after_adoption_later [OF assms(3)] console_adopt_later [OF assms(3)])

lemma main_rejected:
  assumes "imp uri = Settles d (Reject err)" and "truthy err"
  shows "main imp uri con = Some (Return err, con @ [err])"
  using main_settles [where imp = imp and uri = uri, OF assms(1), of con] assms(2)
  by (simp add: on_catch_def)

lemma main_stuck:
  assumes "imp uri = Settles d out" and "\<not> truthy (stored out)"
  shows "main imp uri con = None"
  by (simp add: main_def main_exec_stuck [where imp = imp and uri = uri, OF assms])

lemma main_never:
  assumes "imp uri = Never"
  shows "main imp uri con = None"
  by (simp add: main_def main_exec_never [where imp = imp and uri = uri, OF assms])

lemma main_as_main_in:
  "main imp uri con = map_option (\<lambda>(r, c, js). (r, c)) (main_in imp uri (con, []))"
  by (simp add: main_def main_exec_def main_in_def begin_main_def split: option.splits)

subsection \<open>The leftovers of earlier invocations do not reach this one\<close>

lemma own_run_late: "own (run_late s) = own s"
  by (simp add: own_def run_late_def)










subsection \<open>The scenario modules\<close>

lemma scenario_fastMod: "scenario_loader ''fastMod'' = Settles 0 (Fulfil [(''default'', Num 42)])"
  by (simp add: scenario_loader_def scenario_modules_def)

lemma scenario_badMod: "scenario_loader ''badMod'' = Settles 0 (Reject (Str ''not found''))"
  by (simp add: scenario_loader_def scenario_modules_def)

lemma scenario_zeroMod: "scenario_loader ''zeroMod'' = Settles 0 (Fulfil [(''default'', Num 0)])"
  by (simp add: scenario_loader_def scenario_modules_def)

lemma scenario_emptyMod: "scenario_loader ''emptyMod'' = Settles 1 (Fulfil [(''default'', Str [])])"
  by (simp add: scenario_loader_def scenario_modules_def)

lemma scenario_namedOnly: "scenario_loader ''namedOnly'' = Settles 0 (Fulfil [(''helper'', Obj 2)])"
  by (simp add: scenario_loader_def scenario_modules_def)

lemma scenario_slowMod:
  "scenario_loader ''slowMod'' = Settles 3 (Fulfil [(''default'', Obj 1), (''helper'', Obj 2)])"
  by (simp add: scenario_loader_def scenario_modules_def)

lemma scenario_hangMod: "scenario_loader ''hangMod'' = Never"
  by (simp add: scenario_loader_def scenario_modules_def)

lemma scenario_brokenMod: "scenario_loader ''brokenMod'' = Settles 2 (Reject (Obj 7))"
  by (simp add: scenario_loader_def scenario_modules_def)

lemma scenario_errorAsDefault:
  "scenario_loader ''errorAsDefault'' = Settles 2 (Fulfil [(''default'', Obj 7)])"
  by (simp add: scenario_loader_def scenario_modules_def)

lemma scenario_rejectingDefault:
  "scenario_loader ''rejectingDefault'' =
     Settles 0 (Fulfil [(''default'', Thenable 9 (Rejects 0 (Obj 8)))])"
  by (simp add: scenario_loader_def scenario_modules_def)

lemma scenario_laterRejected:
  "scenario_loader ''laterRejected'' =
     Settles 1 (Fulfil [(''default'', Thenable 5 (Rejects 2 (Obj 6)))])"
  by (simp add: scenario_loader_def scenario_modules_def)

text \<open>A catch handler that had not run when its call returned runs during the next call:
  it writes to the console, and the next call returns the value of its own load.\<close>

lemma late_handler_logs_during_next_call:
  "main_twice scenario_loader ''laterRejected'' ''slowMod'' [] =
     Some (Return (Thenable 5 (Rejects 2 (Obj 6))), Return (Obj 1), [Obj 6])"
  by code_simp

subsection \<open>One assignment, unless the default export is a thenable that rejects\<close>

text \<open>
  When the load never settles, is rejected, or is fulfilled with a default export that is
  not a thenable that rejects, exactly one handler runs: through all the states of the
  invocation \<open>mod\<close> is assigned at most once, and keeps its value from then on.
\<close>

lemma settle_single:
  assumes "\<forall>res a k err. out = Fulfil res \<longrightarrow> get_member res ''default'' \<noteq> Thenable a (Rejects k err)"
  shows "then_promise (settle out s) = then_promise s" and "writes (settle out s) = Suc (writes s)"
proof -
  have "then_promise (settle out s) = then_promise s \<and> writes (settle out s) = Suc (writes s)"
  proof (cases out)
    case (Fulfil res)
    then have "\<forall>a k err. get_member res ''default'' \<noteq> Thenable a (Rejects k err)"
      using assms by simp
    then have "adopt (get_member res ''default'') (on_then res s) = on_then res s"
      by (cases "(get_member res ''default'', on_then res s)" rule: adopt.cases) auto
    then show ?thesis using Fulfil by (simp add: on_then_def)
  next
    case (Reject err)
    then show ?thesis by (simp add: on_catch_def)
  qed
  then show "then_promise (settle out s) = then_promise s"
    and "writes (settle out s) = Suc (writes s)" by simp_all
qed

lemma single_assignment_without_rejecting_default:
  assumes "\<forall>d res a k err. imp uri = Settles d (Fulfil res) \<longrightarrow>
             get_member res ''default'' \<noteq> Thenable a (Rejects k err)"
  shows "writes (after_sleeps n (begin_main imp uri con)) \<le> 1 \<and>
   (writes (after_sleeps n (begin_main imp uri con)) = 0 \<longrightarrow>
      mod_slot (after_sleeps n (begin_main imp uri con)) = Undefined) \<and>
   (writes (after_sleeps n (begin_main imp uri con)) = 1 \<longrightarrow>
      import_promise (after_sleeps n (begin_main imp uri con)) = Settled \<and>
      (\<forall>k. mod_slot (after_sleeps (n + k) (begin_main imp uri con)) =
              mod_slot (after_sleeps n (begin_main imp uri con)) \<and>
            writes (after_sleeps (n + k) (begin_main imp uri con)) = 1))"
proof (cases "imp uri")
  case Never
  show ?thesis by (simp add: trace_never [where imp = imp and uri = uri, OF Never])
next
  case (Settles d out)
  have single: "\<forall>res a k err. out = Fulfil res \<longrightarrow>
                  get_member res ''default'' \<noteq> Thenable a (Rejects k err)"
    using assms Settles by simp
  note quiet = settle_single(1) [OF single]
  show ?thesis
  proof (cases "n \<le> d")
    case True
    show ?thesis by (simp add: trace_waiting [where imp = imp and uri = uri, OF Settles True])
  next
    case False
    then have n: "n = Suc d + (n - Suc d)" by simp
    have A: "after_sleeps n (begin_main imp uri con) =
             settle out \<lparr>mod_slot = Undefined, import_promise = Settled, then_promise = None,
                         console = con, late = [], sleeps = Suc d + (n - Suc d), writes = 0\<rparr>"
      by (subst n) (rule trace_settled_quiet [where imp = imp and uri = uri, OF Settles quiet])
    have B: "after_sleeps (n + k) (begin_main imp uri con) =
             settle out \<lparr>mod_slot = Undefined, import_promise = Settled, then_promise = None,
                         console = con, late = [], sleeps = Suc d + (n - Suc d + k), writes = 0\<rparr>" for k
    proof -
      have "n + k = Suc d + (n - Suc d + k)" using False by simp
      then show ?thesis
        by (simp only: trace_settled_quiet [where imp = imp and uri = uri, OF Settles quiet])
    qed
    show ?thesis
      unfolding A B
      by (simp add: mod_slot_settle settle_single(2) [OF single] import_promise_settle)
  qed
qed

subsection \<open>The claims of the specification\<close>

text \<open>
  Claim C1, as stated (a load that fails with error \<open>E\<close> makes the call raise an error
  carrying \<open>E\<close>, and return no value), does not hold: \<open>badMod\<close> rejects with
  \<open>"not found"\<close>, and the call returns that string as its value, after logging it.
\<close>

theorem main_reject_counterexample:
  "scenario_loader ''badMod'' = Settles 0 (Reject (Str ''not found'')) \<and>
   main scenario_loader ''badMod'' [] = Some (Return (Str ''not found''), [Str ''not found''])"
  using main_rejected [where imp = scenario_loader and uri = "''badMod''", OF scenario_badMod, of "[]"]
  by (simp add: scenario_badMod)

text \<open>
  Claim C1, amended: when the load fails with a truthy error \<open>E\<close>, the catch handler
  stores \<open>E\<close> in \<open>mod\<close> and writes it to \<open>console.error\<close>; the loop ends and the call returns
  \<open>E\<close> as an ordinary value. Nothing is thrown.
\<close>

theorem main_reject_returns_logged_error:
  assumes "imp uri = Settles d (Reject err)" and "truthy err"
  shows "main imp uri con = Some (Return err, con @ [err]) \<and>
         (\<forall>e c. main imp uri con \<noteq> Some (Throw e, c))"
  using main_rejected [where imp = imp and uri = uri, OF assms, of con] by simp

text \<open>The amended C1 at \<open>brokenMod\<close>, which throws an error object while it loads.\<close>

theorem main_reject_returns_logged_error_witness:
  "scenario_loader ''brokenMod'' = Settles 2 (Reject (Obj 7)) \<and> truthy (Obj 7) \<and>
   main scenario_loader ''brokenMod'' [Num 1] = Some (Return (Obj 7), [Num 1, Obj 7]) \<and>
   (\<forall>e c. main scenario_loader ''brokenMod'' [Num 1] \<noteq> Some (Throw e, c))"
proof -
  have t: "truthy (Obj 7)" by simp
  show ?thesis
    using main_reject_returns_logged_error
      [where imp = scenario_loader and uri = "''brokenMod''", OF scenario_brokenMod t, of "[Num 1]"]
    by (simp add: scenario_brokenMod)
qed

text \<open>
  Claim C2 (a load that resolves to a falsy value is still returned): the code does not
  do this. \<open>zeroMod\<close> resolves to \<open>{default: 0}\<close> within the first polling interval; the
  handler stores \<open>0\<close>, \<open>!mod\<close> stays true, and the call never returns.
\<close>

theorem main_zero_default_never_returns:
  "scenario_loader ''zeroMod'' = Settles 0 (Fulfil [(''default'', Num 0)]) \<and>
   main scenario_loader ''zeroMod'' [] = None"
  using main_stuck [where imp = scenario_loader and uri = "''zeroMod''", OF scenario_zeroMod, of "[]"]
  by (simp add: scenario_zeroMod get_member_def)

text \<open>
  Claim C3 (every load that resolves to \<open>V\<close> makes the call return \<open>V\<close>): for a truthy
  \<open>V\<close> this is lemma \<open>main_fulfilled\<close>; for a falsy one the code does not return.
  \<open>emptyMod\<close> resolves to \<open>{default: ""}\<close> during the second polling interval, and the call
  never returns.
\<close>

theorem main_empty_default_never_returns:
  "scenario_loader ''emptyMod'' = Settles 1 (Fulfil [(''default'', Str [])]) \<and>
   main scenario_loader ''emptyMod'' [] = None"
  using main_stuck [where imp = scenario_loader and uri = "''emptyMod''", OF scenario_emptyMod, of "[]"]
  by (simp add: scenario_emptyMod get_member_def)

text \<open>
  Claim C4: whenever the call returns, the load has settled. The state in which the loop
  was left has a settled promise whose handler has run (its own, and the catch handler too
  when the default export is a thenable rejecting in that interval), the return came after
  the polling interval in which it ran, and the value returned is the one the handlers
  stored, not the initial \<open>undefined\<close>.
\<close>

theorem main_returns_after_settlement:
  assumes "main imp uri con = Some (r, c)"
  shows "\<exists>s d out. main_exec imp uri con = Some s \<and> r = Return (mod_slot s) \<and>
           imp uri = Settles d out \<and> import_promise s = Settled \<and> sleeps s = Suc d \<and>
           (writes s = 1 \<or> writes s = 2) \<and> mod_slot s = stored out \<and>
           mod_slot s \<noteq> Undefined"
proof -
  from assms obtain s where s: "main_exec imp uri con = Some s"
    and r: "r = Return (mod_slot s)"
    by (auto simp: main_def split: option.splits)
  from main_exec_Some_D [OF s] obtain d out where
    l: "imp uri = Settles d out" and t: "truthy (stored out)"
    and s': "s = settle out \<lparr>mod_slot = Undefined, import_promise = Settled,
                            then_promise = None, console = con, late = [],
                            sleeps = Suc d, writes = 0\<rparr>"
    by blast
  have "mod_slot s = stored out" using s' by (simp add: mod_slot_settle)
  moreover have "mod_slot s \<noteq> Undefined" using t calculation by auto
  moreover have "import_promise s = Settled" using s' by (simp add: import_promise_settle)
  moreover have "sleeps s = Suc d" using s' by (simp add: sleeps_settle)
  moreover have "writes s = 1 \<or> writes s = 2"
    using writes_settle [of out "\<lparr>mod_slot = Undefined, import_promise = Settled,
                            then_promise = None, console = con, late = [],
                            sleeps = Suc d, writes = 0\<rparr>"] s'
    by auto
  ultimately show ?thesis using s r l by blast
qed

text \<open>C4 at \<open>slowMod\<close>, whose handler runs in the fourth polling interval.\<close>

theorem main_returns_after_settlement_witness:
  "main scenario_loader ''slowMod'' [] = Some (Return (Obj 1), []) \<and>
   (\<exists>s d out. main_exec scenario_loader ''slowMod'' [] = Some s \<and>
      Return (Obj 1) = Return (mod_slot s) \<and>
      scenario_loader ''slowMod'' = Settles d out \<and> import_promise s = Settled \<and>
      sleeps s = Suc d \<and> (writes s = 1 \<or> writes s = 2) \<and> mod_slot s = stored out \<and>
      mod_slot s \<noteq> Undefined)"
proof -
  have m: "main scenario_loader ''slowMod'' [] = Some (Return (Obj 1), [])"
    using main_fulfilled [where imp = scenario_loader and uri = "''slowMod''", OF scenario_slowMod, of "[]"]
    by (simp add: get_member_def)
  from main_returns_after_settlement [OF m] m show ?thesis by blast
qed

text \<open>
  Claim C5 (\<open>mod\<close> goes from pending to a final value at most once and is not assigned
  again): the code does not keep to this. \<open>rejectingDefault\<close> resolves to a namespace whose
  default export is a thenable that rejects with an error object. The first handler
  assigns the thenable and returns it; the promise that \<open>.then\<close> returned adopts it and
  rejects; the catch handler, chained on that promise, assigns the error: two assignments
  in the first polling interval, and the call returns the error. With \<open>laterRejected\<close> the
  rejection comes two intervals later: the call has returned the thenable by then, and
  \<open>mod\<close> is assigned again after that. Lemma \<open>single_assignment_without_rejecting_default\<close>
  covers all other loads.
\<close>

theorem slot_assigned_twice_by_rejecting_default:
  "scenario_loader ''rejectingDefault'' =
     Settles 0 (Fulfil [(''default'', Thenable 9 (Rejects 0 (Obj 8)))]) \<and>
   after_sleeps 1 (begin_main scenario_loader ''rejectingDefault'' []) =
     on_catch (Obj 8)
       (on_then [(''default'', Thenable 9 (Rejects 0 (Obj 8)))]
          \<lparr>mod_slot = Undefined, import_promise = Settled, then_promise = None,
           console = [], late = [], sleeps = 1, writes = 0\<rparr>) \<and>
   writes (after_sleeps 1 (begin_main scenario_loader ''rejectingDefault'' [])) = 2 \<and>
   main scenario_loader ''rejectingDefault'' [] = Some (Return (Obj 8), [Obj 8]) \<and>
   main scenario_loader ''laterRejected'' [] =
     Some (Return (Thenable 5 (Rejects 2 (Obj 6))), []) \<and>
   writes (after_sleeps 2 (begin_main scenario_loader ''laterRejected'' [])) = 1 \<and>
   writes (after_sleeps 4 (begin_main scenario_loader ''laterRejected'' [])) = 2 \<and>
   mod_slot (after_sleeps 4 (begin_main scenario_loader ''laterRejected'' [])) = Obj 6"
proof -
  have a: "after_sleeps 1 (begin_main scenario_loader ''rejectingDefault'' []) =
     on_catch (Obj 8)
       (on_then [(''default'', Thenable 9 (Rejects 0 (Obj 8)))]
          \<lparr>mod_slot = Undefined, import_promise = Settled, then_promise = None,
           console = [], late = [], sleeps = 1, writes = 0\<rparr>)"
    using trace_settling [where imp = scenario_loader and uri = "''rejectingDefault''",
        OF scenario_rejectingDefault, of "[]"]
    by (simp add: get_member_def)
  have b: "main scenario_loader ''rejectingDefault'' [] = Some (Return (Obj 8), [Obj 8])"
    using main_settles [where imp = scenario_loader and uri = "''rejectingDefault''",
        OF scenario_rejectingDefault, of "[]"]
    by (simp add: get_member_def on_then_def on_catch_def)
  have c: "main scenario_loader ''laterRejected'' [] =
     Some (Return (Thenable 5 (Rejects 2 (Obj 6))), [])"
    using main_settles [where imp = scenario_loader and uri = "''laterRejected''",
        OF scenario_laterRejected, of "[]"]
    by (simp add: get_member_def on_then_def numeral_2_eq_2)
  have s2: "after_sleeps (Suc (Suc 0)) (begin_main scenario_loader ''laterRejected'' []) =
      \<lparr>mod_slot = Thenable 5 (Rejects 2 (Obj 6)), import_promise = Settled,
       then_promise = Some (Suc 0, Obj 6), console = [], late = [], sleeps = Suc (Suc 0),
       writes = Suc 0\<rparr>"
    using trace_settling [where imp = scenario_loader and uri = "''laterRejected''",
        OF scenario_laterRejected, of "[]"]
    by (simp add: get_member_def on_then_def numeral_2_eq_2)
  have s3: "after_sleeps (Suc (Suc (Suc 0))) (begin_main scenario_loader ''laterRejected'' []) =
      \<lparr>mod_slot = Thenable 5 (Rejects 2 (Obj 6)), import_promise = Settled,
       then_promise = Some (0, Obj 6), console = [], late = [], sleeps = Suc (Suc (Suc 0)),
       writes = Suc 0\<rparr>"
    by (subst after_sleeps_Suc') (simp add: s2 deasync_sleep_def run_late_none)
  have s4: "after_sleeps (Suc (Suc (Suc (Suc 0)))) (begin_main scenario_loader ''laterRejected'' []) =
      \<lparr>mod_slot = Obj 6, import_promise = Settled,
       then_promise = None, console = [Obj 6], late = [], sleeps = Suc (Suc (Suc (Suc 0))),
       writes = Suc (Suc 0)\<rparr>"
    by (subst after_sleeps_Suc') (simp add: s3 deasync_sleep_def run_late_none on_catch_def)
  have two: "(2::nat) = Suc (Suc 0)" and four: "(4::nat) = Suc (Suc (Suc (Suc 0)))"
    by simp_all
  have d: "writes (after_sleeps 2 (begin_main scenario_loader ''laterRejected'' [])) = 1"
    unfolding two by (simp add: s2)
  have e: "writes (after_sleeps 4 (begin_main scenario_loader ''laterRejected'' [])) = 2"
    "mod_slot (after_sleeps 4 (begin_main scenario_loader ''laterRejected'' [])) = Obj 6"
    unfolding four by (simp_all add: s4)
  have w: "writes (after_sleeps 1 (begin_main scenario_loader ''rejectingDefault'' [])) = 2"
    unfolding a by (simp add: on_catch_def on_then_def)
  from scenario_rejectingDefault a w b c d e show ?thesis by blast
qed

text \<open>
  Claim C6: if the load never settles, the call never returns. At every test of the loop
  \<open>mod\<close> is still falsy and the promise still pending, however many intervals have gone by:
  nothing bounds the wait.
\<close>

theorem main_never_settling_never_returns:
  assumes "imp uri = Never"
  shows "main imp uri con = None \<and>
         (\<forall>n. \<not> truthy (mod_slot (after_sleeps n (begin_main imp uri con))) \<and>
              import_promise (after_sleeps n (begin_main imp uri con)) = Forever \<and>
              sleeps (after_sleeps n (begin_main imp uri con)) = n)"
  using main_never [where imp = imp and uri = uri, OF assms, of con]
  by (simp add: trace_never [where imp = imp and uri = uri, OF assms])

text \<open>C6 at \<open>hangMod\<close>.\<close>

theorem main_never_settling_never_returns_witness:
  "scenario_loader ''hangMod'' = Never \<and> main scenario_loader ''hangMod'' [] = None"
  using main_never_settling_never_returns
    [where imp = scenario_loader and uri = "''hangMod''", OF scenario_hangMod, of "[]"]
  by (simp add: scenario_hangMod)



text \<open>
  Claim C9: a load rejected with a truthy error \<open>E\<close> makes the call return \<open>E\<close>, the same
  completion as that of a load fulfilled with a namespace whose \<open>default\<close> is \<open>E\<close>: from the
  value returned, the caller cannot tell failure from success. (The load of the
  comparison returns its default export unless that is a thenable rejecting in the
  interval of settlement, which the catch handler then replaces by its error.)
\<close>

theorem main_rejection_looks_like_success:
  assumes "imp uri = Settles d (Reject err)" and "truthy err"
    and "imp' uri' = Settles d' (Fulfil res)" and "get_member res ''default'' = err"
  shows "map_option fst (main imp uri con) = Some (Return err) \<and>
         ((\<forall>a e. err \<noteq> Thenable a (Rejects 0 e)) \<longrightarrow>
            map_option fst (main imp' uri' con') = Some (Return err))"
proof -
  have 1: "map_option fst (main imp uri con) = Some (Return err)"
    using main_rejected [where imp = imp and uri = uri, OF assms(1,2), of con] by simp
  have 2: "map_option fst (main imp' uri' con') = Some (Return err)"
    if "\<forall>a e. err \<noteq> Thenable a (Rejects 0 e)"
    using main_fulfilled [where imp = imp' and uri = uri', OF assms(3), of con'] assms(2,4) that
    by simp
  from 1 2 show ?thesis by blast
qed

text \<open>C9 at \<open>brokenMod\<close> and at \<open>errorAsDefault\<close>, which exports the same object as its
  default.\<close>

theorem main_rejection_looks_like_success_witness:
  "scenario_loader ''brokenMod'' = Settles 2 (Reject (Obj 7)) \<and>
   scenario_loader ''errorAsDefault'' = Settles 2 (Fulfil [(''default'', Obj 7)]) \<and>
   map_option fst (main scenario_loader ''brokenMod'' []) = Some (Return (Obj 7)) \<and>
   map_option fst (main scenario_loader ''errorAsDefault'' []) = Some (Return (Obj 7))"
proof -
  have t: "truthy (Obj 7)" by simp
  have g: "get_member [(''default'', Obj 7)] ''default'' = Obj 7" by (simp add: get_member_def)
  show ?thesis
    using main_rejection_looks_like_success
      [where imp = scenario_loader and uri = "''brokenMod''"
         and imp' = scenario_loader and uri' = "''errorAsDefault''",
       OF scenario_brokenMod t scenario_errorAsDefault g, of "[]" "[]"]
    by (simp add: scenario_brokenMod scenario_errorAsDefault)
qed

text \<open>
  Claim C10: when the load is fulfilled with a namespace that has no \<open>default\<close> member, or
  a falsy one, the promise has settled after its polling interval, the value in \<open>mod\<close> is
  that falsy member from then on, the test \<open>!mod\<close> holds at every iteration, and the call
  never returns.
\<close>

theorem main_falsy_default_never_returns:
  assumes "imp uri = Settles d (Fulfil res)"
    and "map_of res ''default'' = None \<or> \<not> truthy (get_member res ''default'')"
  shows "main imp uri con = None \<and>
         import_promise (after_sleeps (Suc d) (begin_main imp uri con)) = Settled \<and>
         (\<forall>n. \<not> truthy (mod_slot (after_sleeps n (begin_main imp uri con)))) \<and>
         (\<forall>k. mod_slot (after_sleeps (Suc d + k) (begin_main imp uri con)) =
                 get_member res ''default'')"
proof -
  have g: "\<not> truthy (get_member res ''default'')"
    using assms(2) by (auto simp: get_member_def)
  have st: "stored (Fulfil res) = get_member res ''default''"
    by (simp add: after_adoption_falsy [OF g])
  have f: "\<not> truthy (stored (Fulfil res))"
    using g st by simp
  have a: "main imp uri con = None"
    by (rule main_stuck [where imp = imp and uri = uri, OF assms(1) f])
  have b: "import_promise (after_sleeps (Suc d) (begin_main imp uri con)) = Settled"
    by (simp only: trace_settling [where imp = imp and uri = uri, OF assms(1)]
          import_promise_settle) simp
  have c: "\<forall>n. \<not> truthy (mod_slot (after_sleeps n (begin_main imp uri con)))"
    using falsy_forever [where imp = imp and uri = uri, OF assms(1) f] by blast
  have d: "\<forall>k. mod_slot (after_sleeps (Suc d + k) (begin_main imp uri con)) =
                 get_member res ''default''"
    by (simp only: trace_settled [where imp = imp and uri = uri, OF assms(1) f]
          mod_slot_settle st) simp
  from a b c d show ?thesis by blast
qed

text \<open>C10 at \<open>namedOnly\<close>, a module with named exports only.\<close>

theorem main_falsy_default_never_returns_witness:
  "scenario_loader ''namedOnly'' = Settles 0 (Fulfil [(''helper'', Obj 2)]) \<and>
   map_of [(''helper'', Obj 2)] ''default'' = None \<and>
   main scenario_loader ''namedOnly'' [] = None \<and>
   import_promise (after_sleeps (Suc 0) (begin_main scenario_loader ''namedOnly'' [])) = Settled"
proof -
  have n: "map_of [(''helper'', Obj 2)] ''default'' = None \<or>
           \<not> truthy (get_member [(''helper'', Obj 2)] ''default'')" by simp
  show ?thesis
    using main_falsy_default_never_returns
      [where imp = scenario_loader and uri = "''namedOnly''", OF scenario_namedOnly n, of "[]"]
    by (simp add: scenario_namedOnly)
qed

end
